theory Spec2Isabelle
  imports Main "HOL-Library.Word"
begin

section \<open>The IQ stanza codec of go-xmpp (iq.go)\<close>

text \<open>
  The development embeds \<^verbatim>\<open>iq.go\<close>: the stanza error \<^verbatim>\<open>Err\<close>, the envelope \<^verbatim>\<open>IQ\<close>, the
  generic \<^verbatim>\<open>Node\<close> and the type registry, together with the part of Go's
  \<^verbatim>\<open>encoding/xml\<close> and \<^verbatim>\<open>strconv\<close> that these functions call (\<^verbatim>\<open>Decoder.Token\<close>,
  \<^verbatim>\<open>Decoder.Skip\<close>, \<^verbatim>\<open>Decoder.DecodeElement\<close>, \<^verbatim>\<open>Encoder.EncodeToken\<close>,
  \<^verbatim>\<open>Encoder.EncodeElement\<close>, \<^verbatim>\<open>strconv.Itoa\<close>, \<^verbatim>\<open>strconv.Atoi\<close>).

  Pointer receivers (\<^verbatim>\<open>func (x *Err) UnmarshalXML\<close>) mutate their receiver and the decoder,
  so their models take both and return both next to the \<^verbatim>\<open>error\<close> result
  (\<open>None\<close> is Go's \<^verbatim>\<open>nil\<close>). Value receivers (\<^verbatim>\<open>func (iq IQ) MakeError\<close>) work on a copy,
  so their models are plain functions of the receiver's value.
\<close>

subsection \<open>Data of \<^verbatim>\<open>encoding/xml\<close>\<close>

record Name =
  Space :: string
  Local :: string

record Attr =
  Name :: Name
  Value :: string

record StartElement =
  Name :: Name
  Attr :: "Attr list"

text \<open>
  Go's \<^verbatim>\<open>xml.Token\<close> is an interface holding one of six types. \<^verbatim>\<open>xml.EndElement\<close> is a
  struct with the single field \<^verbatim>\<open>Name\<close>, so comparing two end elements with \<^verbatim>\<open>==\<close> compares
  their names, and \<^verbatim>\<open>start.End()\<close> is the name of \<^verbatim>\<open>start\<close>.
\<close>

datatype Token =
    StartElementT StartElement
  | EndElementT Name
  | CharData string
  | Comment string
  | ProcInst string string
  | Directive string

datatype xmlerror =
    EOF
  | SyntaxError
  | UnmarshalError
  | MarshalError

definition End :: "StartElement \<Rightarrow> Name" where
  "End start = StartElement.Name start"

subsection \<open>Data of iq.go\<close>

text \<open>Go's \<^verbatim>\<open>int\<close> is taken at 64 bits.\<close>

record Err =
  XMLName :: Name
  Code :: "64 word"
  Type :: string
  Reason :: string
  Text :: string

datatype Node = Node (XMLName: Name) (Attrs: "Attr list") (Content: string) (Nodes: "Node list")

text \<open>
  The registry stores \<^verbatim>\<open>reflect.Type\<close> values; four struct types are registered by
  \<^verbatim>\<open>init\<close>. A value of interface type \<^verbatim>\<open>IQPayload\<close> built by \<^verbatim>\<open>IQ.UnmarshalXML\<close> is either
  a \<^verbatim>\<open>*Node\<close> or a pointer to one of the registered structs. No property below reads a
  field of a registered struct, so such a payload keeps its type, the start element and
  the tokens of the element it was filled from, not the fields that reflection derives
  from them.
\<close>

datatype rtype = DiscoInfo | DiscoItems | BindBind | ControlSet

datatype IQPayload =
    PNode Node
  | PStruct rtype StartElement "Token list"

text \<open>
  \<^verbatim>\<open>PacketAttrs\<close> is embedded in \<^verbatim>\<open>IQ\<close>; iq.go reads and writes its five string fields.
\<close>

record PacketAttrs =
  Id :: string
  From :: string
  To :: string
  Type :: string
  Lang :: string

record IQ = PacketAttrs +
  XMLName :: Name
  Payload :: "IQPayload list"
  RawXML :: string
  Error :: Err

text \<open>The zero values that \<^verbatim>\<open>new(Node)\<close>, \<^verbatim>\<open>var packet IQ\<close> and \<^verbatim>\<open>Err{}\<close> give.\<close>

definition zeroName :: Name where
  "zeroName = \<lparr>Space = '''', Local = ''''\<rparr>"

definition zeroNode :: Node where
  "zeroNode = Node zeroName [] '''' []"

definition zeroErr :: Err where
  "zeroErr = \<lparr>Err.XMLName = zeroName, Code = 0, Type = '''', Reason = '''', Text = ''''\<rparr>"

definition zeroIQ :: IQ where
  "zeroIQ = \<lparr>Id = '''', From = '''', To = '''', Type = '''', Lang = '''',
              IQ.XMLName = zeroName, Payload = [], RawXML = '''', Error = zeroErr\<rparr>"

subsection \<open>\<^verbatim>\<open>strconv.Itoa\<close> and \<^verbatim>\<open>strconv.Atoi\<close>\<close>

text \<open>
  \<^verbatim>\<open>Itoa\<close> prints the decimal digits of its argument, with a minus sign before a negative
  one. \<^verbatim>\<open>Atoi\<close> accepts an optional sign followed by one or more decimal digits and fails
  with a syntax error on anything else, and with a range error when the value does not
  fit \<^verbatim>\<open>int\<close>.
\<close>

datatype NumError = ErrSyntax | ErrRange

definition digit :: "int \<Rightarrow> char" where
  "digit k = char_of (of_char CHR ''0'' + k)"

function digits :: "int \<Rightarrow> string" where
  "digits n = (if n < 10 then [digit n] else digits (n div 10) @ [digit (n mod 10)])"
  by pat_completeness auto
termination
  by (relation "measure nat") auto

declare digits.simps [simp del]

definition Itoa :: "64 word \<Rightarrow> string" where
  "Itoa i = (if sint i < 0 then CHR ''-'' # digits (- sint i) else digits (sint i))"

definition isDigit :: "char \<Rightarrow> bool" where
  "isDigit c = (of_char CHR ''0'' \<le> (of_char c :: int) \<and> (of_char c :: int) \<le> of_char CHR ''9'')"

definition digitVal :: "char \<Rightarrow> int" where
  "digitVal c = of_char c - of_char CHR ''0''"

definition parseDigits :: "string \<Rightarrow> int" where
  "parseDigits s = foldl (\<lambda>n ch. n * 10 + digitVal ch) 0 s"

definition Atoi :: "string \<Rightarrow> NumError + 64 word" where
  "Atoi s =
     (let neg = (s \<noteq> [] \<and> hd s = CHR ''-'');
          s1 = (if s \<noteq> [] \<and> (hd s = CHR ''-'' \<or> hd s = CHR ''+'') then tl s else s)
      in if s1 = [] then Inl ErrSyntax
         else if list_all isDigit s1 then
              let un = parseDigits s1
              in if neg then (if un > 2 ^ 63 then Inl ErrRange else Inr (word_of_int (- un)))
                 else (if un \<ge> 2 ^ 63 then Inl ErrRange else Inr (word_of_int un))
         else Inl ErrSyntax)"

subsection \<open>\<^verbatim>\<open>xml.Decoder\<close>\<close>

text \<open>
  The decoder reads tokens from its input. Lexing the bytes and translating name-space
  prefixes is taken as done: \<open>input\<close> holds the remaining tokens, with translated names,
  each next to the bytes it was read from (the bytes are what an \<^verbatim>\<open>innerxml\<close> field
  records). Input that cannot be lexed is input that ends early. \<open>stk\<close> is the decoder's
  stack of open elements, top first, with the end-of-file marks that \<^verbatim>\<open>pushEOF\<close> inserts
  (it holds the translated names as well, and not the entries that undo name-space
  declarations);
  \<open>saved\<close> holds the bytes read so far (Go's \<^verbatim>\<open>d.saved\<close>, here recording from the start).
\<close>

datatype stack = stkStart Name | stkEOF

record Decoder =
  input :: "(string \<times> Token) list"
  stk :: "stack list"
  saved :: string

definition NewDecoder :: "(string \<times> Token) list \<Rightarrow> Decoder" where
  "NewDecoder r = \<lparr>input = r, stk = [], saved = ''''\<rparr>"

text \<open>
  \<^verbatim>\<open>Token\<close> in strict mode: end of file once an end-of-file mark is on top of the stack;
  a syntax error when the input ends inside an element or when an end element does not
  close the element on top of the stack (which is popped before the comparison).
\<close>

definition Token :: "Decoder \<Rightarrow> (xmlerror + Token) \<times> Decoder" where
  "Token d =
     (case stk d of
        stkEOF # _ \<Rightarrow> (Inl EOF, d)
      | _ \<Rightarrow>
        (case input d of
           [] \<Rightarrow> (Inl (if stk d = [] then EOF else SyntaxError), d)
         | (raw, t) # rest \<Rightarrow>
             (let d1 = d\<lparr>input := rest, saved := saved d @ raw\<rparr> in
              case t of
                StartElementT t1 \<Rightarrow> (Inr t, d1\<lparr>stk := stkStart (StartElement.Name t1) # stk d\<rparr>)
              | EndElementT name \<Rightarrow>
                  (case stk d of
                     stkStart s # below \<Rightarrow>
                       if s = name then (Inr t, d1\<lparr>stk := below\<rparr>)
                       else (Inl SyntaxError, d1\<lparr>stk := below\<rparr>)
                   | _ \<Rightarrow> (Inl SyntaxError, d1))
              | _ \<Rightarrow> (Inr t, d1))))"

text \<open>
  \<^verbatim>\<open>pushEOF\<close> puts an end-of-file mark under the innermost open element, so that \<^verbatim>\<open>Token\<close>
  reports end of file once that element is closed; \<^verbatim>\<open>popEOF\<close> removes the mark if it is on
  top. (Go walks the stack down to the first start entry and would dereference \<^verbatim>\<open>nil\<close> on a
  stack without one; every call below follows a \<^verbatim>\<open>Token\<close> that returned a start element.)
\<close>

fun pushEOF_stk :: "stack list \<Rightarrow> stack list" where
  "pushEOF_stk (stkStart n # s) = stkStart n # stkEOF # s"
| "pushEOF_stk (e # s) = e # pushEOF_stk s"
| "pushEOF_stk [] = []"

definition pushEOF :: "Decoder \<Rightarrow> Decoder" where
  "pushEOF d = d\<lparr>stk := pushEOF_stk (stk d)\<rparr>"

definition popEOF :: "Decoder \<Rightarrow> bool \<times> Decoder" where
  "popEOF d = (case stk d of stkEOF # s \<Rightarrow> (True, d\<lparr>stk := s\<rparr>) | _ \<Rightarrow> (False, d))"

lemma Token_Inr_length:
  "Token d = (Inr t, d') \<Longrightarrow> length (input d') < length (input d)"
  by (auto simp: Token_def Let_def split: list.splits stack.splits Token.splits if_splits prod.splits)

lemma Token_length:
  "Token d = (r, d') \<Longrightarrow> length (input d') \<le> length (input d)"
  by (auto simp: Token_def Let_def split: list.splits stack.splits Token.splits if_splits prod.splits)

lemma input_pushEOF [simp]: "input (pushEOF d) = input d"
  by (simp add: pushEOF_def)

lemma input_popEOF [simp]: "input (snd (popEOF d)) = input d"
  by (simp add: popEOF_def split: list.splits stack.splits)

text \<open>\<^verbatim>\<open>Skip\<close> reads tokens up to the end element that closes the element already open.\<close>

function Skip_loop :: "int \<Rightarrow> Decoder \<Rightarrow> xmlerror option \<times> Decoder" where
  "Skip_loop depth d =
     (case Token d of
        (Inl err, d1) \<Rightarrow> (Some err, d1)
      | (Inr (StartElementT _), d1) \<Rightarrow> Skip_loop (depth + 1) d1
      | (Inr (EndElementT _), d1) \<Rightarrow> if depth = 0 then (None, d1) else Skip_loop (depth - 1) d1
      | (Inr _, d1) \<Rightarrow> Skip_loop depth d1)"
  by pat_completeness auto
termination
  by (relation "measure (\<lambda>(depth, d). length (input d))") (auto dest: Token_Inr_length[OF sym])

declare Skip_loop.simps [simp del]

definition Skip :: "Decoder \<Rightarrow> xmlerror option \<times> Decoder" where
  "Skip d = Skip_loop 0 d"

subsection \<open>\<^verbatim>\<open>Node.UnmarshalXML\<close>\<close>

text \<open>
  \<^verbatim>\<open>Node.UnmarshalXML\<close> copies the attributes that are not named \<^verbatim>\<open>xmlns\<close> and then decodes
  the element into the same node under the type \<^verbatim>\<open>node\<close>, which has the fields of \<^verbatim>\<open>Node\<close> and
  no methods. For that type \<^verbatim>\<open>DecodeElement\<close> runs the decoder's generic struct code, here
  \<open>unmarshal_node\<close>: it sets \<^verbatim>\<open>XMLName\<close> to the name of the start element, notes the offset
  of the saved bytes for the \<^verbatim>\<open>innerxml\<close> field \<^verbatim>\<open>Content\<close>, and reads tokens; a start element
  is a child for the \<^verbatim>\<open>any\<close> field \<^verbatim>\<open>Nodes\<close>, the slice is grown by a zero \<^verbatim>\<open>Node\<close> which is
  decoded through its own \<^verbatim>\<open>UnmarshalXML\<close> (between \<^verbatim>\<open>pushEOF\<close> and \<^verbatim>\<open>popEOF\<close>, as
  \<^verbatim>\<open>unmarshalInterface\<close> does; on an error the slice is cut back); an end element ends the
  loop and \<^verbatim>\<open>Content\<close> receives the bytes saved before it; other tokens are passed over.
  \<^verbatim>\<open>Attrs\<close> is tagged \<^verbatim>\<open>xml:"-"\<close> and is not touched by the generic code.
\<close>

definition with_XMLName :: "Node \<Rightarrow> Name \<Rightarrow> Node" where
  "with_XMLName n v = Node v (Attrs n) (Content n) (Nodes n)"

definition with_Attrs :: "Node \<Rightarrow> Attr list \<Rightarrow> Node" where
  "with_Attrs n v = Node (Node.XMLName n) v (Content n) (Nodes n)"

definition with_Content :: "Node \<Rightarrow> string \<Rightarrow> Node" where
  "with_Content n v = Node (Node.XMLName n) (Attrs n) v (Nodes n)"

definition with_Nodes :: "Node \<Rightarrow> Node list \<Rightarrow> Node" where
  "with_Nodes n v = Node (Node.XMLName n) (Attrs n) (Content n) v"

function Node_UnmarshalXML :: "Node \<Rightarrow> Decoder \<Rightarrow> StartElement \<Rightarrow> xmlerror option \<times> Node \<times> Decoder"
  and unmarshal_node :: "Node \<Rightarrow> nat \<Rightarrow> Decoder \<Rightarrow> xmlerror option \<times> Node \<times> Decoder"
where
  "Node_UnmarshalXML n d start =
     (let n = foldl (\<lambda>n attr.
                if Local (Attr.Name attr) \<noteq> ''xmlns'' then with_Attrs n (Attrs n @ [attr]) else n)
              n (Attr start);
          n = with_XMLName n (StartElement.Name start)
      in unmarshal_node n (length (saved d)) d)"
| "unmarshal_node n saveXMLIndex d =
     (case Token d of
        (Inl err, d1) \<Rightarrow> (Some err, n, d1)
      | (Inr (StartElementT t), d1) \<Rightarrow>
          (case Node_UnmarshalXML zeroNode (pushEOF d1) t of
             (Some err, c, d2) \<Rightarrow> (Some err, n, snd (popEOF d2))
           | (None, c, d2) \<Rightarrow>
               (case popEOF d2 of
                  (False, d3) \<Rightarrow> (Some UnmarshalError, n, d3)
                | (True, d3) \<Rightarrow> unmarshal_node (with_Nodes n (Nodes n @ [c])) saveXMLIndex d3))
      | (Inr (EndElementT _), d1) \<Rightarrow> (None, with_Content n (drop saveXMLIndex (saved d)), d1)
      | (Inr _, d1) \<Rightarrow> unmarshal_node n saveXMLIndex d1)"
  by pat_completeness auto

text \<open>
  The loop calls itself on the decoder that the child's decode returns, so termination
  needs that a decode never gives input back.
\<close>

lemma Node_decode_length:
  "Node_UnmarshalXML_unmarshal_node_dom (Inl (n, d, start)) \<Longrightarrow>
     length (input (snd (snd (Node_UnmarshalXML n d start)))) \<le> length (input d)"
  "Node_UnmarshalXML_unmarshal_node_dom (Inr (n', idx, d')) \<Longrightarrow>
     length (input (snd (snd (unmarshal_node n' idx d')))) \<le> length (input d')"
proof (induction n d start and n' idx d' rule: Node_UnmarshalXML_unmarshal_node.pinduct)
  case (1 n d start)
  then show ?case
    by (simp add: Node_UnmarshalXML.psimps Let_def)
next
  case (2 n saveXMLIndex d)
  note unfold = unmarshal_node.psimps[OF "2.hyps"]
  show ?case
  proof (cases "Token d")
    case (Pair r d1)
    note len1 = Token_length[OF Pair]
    show ?thesis
    proof (cases r)
      case (Inl err)
      with Pair len1 show ?thesis by (simp add: unfold)
    next
      case (Inr t)
      show ?thesis
      proof (cases t)
        case (StartElementT se)
        obtain e c d2 where r2: "Node_UnmarshalXML zeroNode (pushEOF d1) se = (e, c, d2)"
          by (cases "Node_UnmarshalXML zeroNode (pushEOF d1) se") auto
        have l2: "length (input d2) \<le> length (input d1)"
          using "2.IH"(1)[OF Pair[symmetric] Inr StartElementT] r2 by simp
        obtain ok d3 where p3: "popEOF d2 = (ok, d3)"
          by (cases "popEOF d2") auto
        have l3: "input d3 = input d2"
          using input_popEOF[of d2] p3 by simp
        show ?thesis
        proof (cases e)
          case (Some err)
          with Pair Inr StartElementT r2 l2 len1 p3 l3 show ?thesis by (simp add: unfold)
        next
          case None
          show ?thesis
          proof (cases ok)
            case False
            with Pair Inr StartElementT r2 l2 len1 None p3 l3 show ?thesis by (simp add: unfold)
          next
            case True
            have "length (input (snd (snd (unmarshal_node (with_Nodes n (Nodes n @ [c]))
                    saveXMLIndex d3)))) \<le> length (input d3)"
              using "2.IH"(2)[OF Pair[symmetric] Inr StartElementT r2[symmetric] None refl
                  p3[symmetric]] True
              by simp
            with Pair Inr StartElementT r2 l2 len1 None p3 l3 True show ?thesis
              by (simp add: unfold)
          qed
        qed
      next
        case (EndElementT x2)
        with Pair Inr len1 show ?thesis by (simp add: unfold)
      next
        case (CharData x3)
        with Pair Inr len1 "2.IH"(3)[OF Pair[symmetric] Inr CharData] show ?thesis
          by (simp add: unfold)
      next
        case (Comment x4)
        with Pair Inr len1 "2.IH"(4)[OF Pair[symmetric] Inr Comment] show ?thesis
          by (simp add: unfold)
      next
        case (ProcInst x51 x52)
        with Pair Inr len1 "2.IH"(5)[OF Pair[symmetric] Inr ProcInst] show ?thesis
          by (simp add: unfold)
      next
        case (Directive x6)
        with Pair Inr len1 "2.IH"(6)[OF Pair[symmetric] Inr Directive] show ?thesis
          by (simp add: unfold)
      qed
    qed
  qed
qed

lemma Node_decode_total: "All Node_UnmarshalXML_unmarshal_node_dom"
proof (relation "measure (\<lambda>x. case x of Inl (n, d, start) \<Rightarrow> 2 * length (input d) + 1
                                      | Inr (n, idx, d) \<Rightarrow> 2 * length (input d))", goal_cases)
  case 1
  show ?case by simp
next
  case (2 n d start)
  show ?case by simp
next
  case (3 n idx d r d1 t se)
  then show ?case using Token_Inr_length[of d t d1] by simp
next
  case (4 n idx d r d1 t se e cd2 c d2 ok d3)
  have a: "Node_UnmarshalXML zeroNode (pushEOF d1) se = (None, c, d2)"
    using 4(4,5,6) by simp
  have b: "input d3 = input d2"
    using 4(7) input_popEOF[of d2] by (metis snd_conv)
  have c: "length (input d1) < length (input d)"
    using 4(1,2,3) Token_Inr_length[of d t d1] by simp
  have "length (input d2) \<le> length (input d1)"
    using Node_decode_length(1)[OF 4(9)] a by simp
  with b c show ?case by simp
qed (use Token_Inr_length[OF sym] in auto)

termination Node_UnmarshalXML
  by (rule Node_decode_total)

declare Node_UnmarshalXML.simps [simp del] unmarshal_node.simps [simp del]

text \<open>
  \<^verbatim>\<open>d.DecodeElement(elt, &tt)\<close> with \<^verbatim>\<open>elt\<close> a \<^verbatim>\<open>*Node\<close>: the decoder finds that \<^verbatim>\<open>*Node\<close>
  implements \<^verbatim>\<open>xml.Unmarshaler\<close> and calls it through \<^verbatim>\<open>unmarshalInterface\<close>, which fails when
  the method returns without having consumed the whole element.
\<close>

definition DecodeElement_Node :: "Node \<Rightarrow> Decoder \<Rightarrow> StartElement \<Rightarrow> xmlerror option \<times> Node \<times> Decoder" where
  "DecodeElement_Node elt d start =
     (case Node_UnmarshalXML elt (pushEOF d) start of
        (Some err, elt, d1) \<Rightarrow> (Some err, elt, snd (popEOF d1))
      | (None, elt, d1) \<Rightarrow>
          (case popEOF d1 of
             (False, d2) \<Rightarrow> (Some UnmarshalError, elt, d2)
           | (True, d2) \<Rightarrow> (None, elt, d2)))"

lemma Node_UnmarshalXML_length:
  "Node_UnmarshalXML n d start = (e, n', d') \<Longrightarrow> length (input d') \<le> length (input d)"
  using Node_decode_length(1)[of n d start] Node_decode_total by simp

lemma DecodeElement_Node_length:
  "DecodeElement_Node elt d start = (e, elt', d') \<Longrightarrow> length (input d') \<le> length (input d)"
proof -
  assume a: "DecodeElement_Node elt d start = (e, elt', d')"
  obtain e1 n1 d1 where r: "Node_UnmarshalXML elt (pushEOF d) start = (e1, n1, d1)"
    by (cases "Node_UnmarshalXML elt (pushEOF d) start") auto
  obtain ok d2 where p: "popEOF d1 = (ok, d2)"
    by (cases "popEOF d1") auto
  have "input d2 = input d1"
    using input_popEOF[of d1] p by simp
  moreover have "d' = d2"
    using a r p by (auto simp: DecodeElement_Node_def split: option.splits bool.splits)
  ultimately have "input d' = input d1"
    by simp
  with Node_UnmarshalXML_length[OF r] show ?thesis by simp
qed

lemma Skip_loop_length:
  "Skip_loop depth d = (e, d') \<Longrightarrow> length (input d') \<le> length (input d)"
proof (induction depth d arbitrary: e d' rule: Skip_loop.induct)
  case (1 depth d)
  obtain r d1 where t: "Token d = (r, d1)" by (cases "Token d") auto
  note len1 = Token_length[OF t]
  show ?case
  proof (cases r)
    case (Inl err)
    with "1.prems" t len1 show ?thesis by (simp add: Skip_loop.simps[of depth d])
  next
    case (Inr tok)
    with "1.prems" t len1 "1.IH"[OF t[symmetric] Inr] show ?thesis
      by (cases tok) (auto simp: Skip_loop.simps[of depth d] split: if_splits dest: le_trans)
  qed
qed

lemma Token_then_Node_length:
  assumes "(Inr t, d1) = Token d" and "(e, elt, d2) = DecodeElement_Node n d1 start"
  shows "length (input d2) < length (input d)"
  using Token_Inr_length[OF assms(1)[symmetric]] DecodeElement_Node_length[OF assms(2)[symmetric]]
  by simp

subsection \<open>\<^verbatim>\<open>Err.UnmarshalXML\<close>\<close>

definition xmppStanzas :: string where
  "xmppStanzas = ''urn:ietf:params:xml:ns:xmpp-stanzas''"

function Err_loop :: "StartElement \<Rightarrow> Err \<Rightarrow> Decoder \<Rightarrow> xmlerror option \<times> Err \<times> Decoder" where
  "Err_loop start x d =
     (case Token d of
        (Inl err, d1) \<Rightarrow> (Some err, x, d1)
      | (Inr (StartElementT tt), d1) \<Rightarrow>
          (case DecodeElement_Node zeroNode d1 tt of
             (Some err, elt, d2) \<Rightarrow> (Some err, x, d2)
           | (None, elt, d2) \<Rightarrow>
               (let textName = \<lparr>Space = xmppStanzas, Local = ''text''\<rparr>;
                    x = (if Node.XMLName elt = textName then x\<lparr>Text := Content elt\<rparr>
                         else if Space (Node.XMLName elt) = xmppStanzas
                              then x\<lparr>Reason := Local (Node.XMLName elt)\<rparr>
                              else x)
                in Err_loop start x d2))
      | (Inr (EndElementT tt), d1) \<Rightarrow> if tt = End start then (None, x, d1) else Err_loop start x d1
      | (Inr _, d1) \<Rightarrow> Err_loop start x d1)"
  by pat_completeness auto
termination
  by (relation "measure (\<lambda>(start, x, d). length (input d))")
     (auto dest: Token_Inr_length[OF sym] intro: Token_then_Node_length)

declare Err_loop.simps [simp del]

text \<open>The body of the loop over the attributes of the start element.\<close>

definition Err_attr :: "Err \<Rightarrow> Attr \<Rightarrow> Err" where
  "Err_attr x attr =
     (let x = (if Local (Attr.Name attr) = ''type'' then x\<lparr>Err.Type := Value attr\<rparr> else x)
      in if Local (Attr.Name attr) = ''code''
         then (case Atoi (Value attr) of Inr code \<Rightarrow> x\<lparr>Code := code\<rparr> | Inl err \<Rightarrow> x)
         else x)"

definition Err_UnmarshalXML :: "Err \<Rightarrow> Decoder \<Rightarrow> StartElement \<Rightarrow> xmlerror option \<times> Err \<times> Decoder" where
  "Err_UnmarshalXML x d start =
     (let x = x\<lparr>Err.XMLName := StartElement.Name start\<rparr>;
          x = foldl Err_attr x (Attr start)
      in Err_loop start x d)"

subsection \<open>The type registry and \<^verbatim>\<open>IQ.UnmarshalXML\<close>\<close>

definition typeRegistry :: "string \<rightharpoonup> rtype" where
  "typeRegistry = map_of
     [(''http://jabber.org/protocol/disco#info query'', DiscoInfo),
      (''http://jabber.org/protocol/disco#items query'', DiscoItems),
      (''urn:ietf:params:xml:ns:xmpp-bind bind'', BindBind),
      (''urn:xmpp:iot:control set'', ControlSet)]"

text \<open>
  \<^verbatim>\<open>elt.(IQPayload)\<close> asks whether the pointer to the new value has the method
  \<^verbatim>\<open>IsIQPayload\<close>. iq.go declares it for \<^verbatim>\<open>*Node\<close>, \<^verbatim>\<open>*DiscoInfo\<close> and \<^verbatim>\<open>*DiscoItems\<close>; the jukebox
  program switches on an \<^verbatim>\<open>IQPayload\<close> with the case \<^verbatim>\<open>*iot.ControlSet\<close>, which compiles only if
  that type has it too.
\<close>

text \<open>
  Modelled from the spec: the declaration of \<^verbatim>\<open>BindBind\<close> is not among the sources; the spec
  lists BindBind among the payload variants, so \<^verbatim>\<open>*BindBind\<close> is taken to have the method.
\<close>

definition implementsIQPayload :: "rtype \<Rightarrow> bool" where
  "implementsIQPayload T = (case T of DiscoInfo \<Rightarrow> True | DiscoItems \<Rightarrow> True
                              | BindBind \<Rightarrow> True | ControlSet \<Rightarrow> True)"

text \<open>
  \<^verbatim>\<open>d.DecodeElement(elt, &tt)\<close> with \<^verbatim>\<open>elt\<close> a pointer to a registered struct.
  \<^verbatim>\<open>DiscoInfo\<close> and \<^verbatim>\<open>DiscoItems\<close> have no \<^verbatim>\<open>UnmarshalXML\<close> (\<^verbatim>\<open>BindBind\<close> and \<^verbatim>\<open>iot.ControlSet\<close>,
  declared elsewhere, are taken the same way), so the decoder's generic struct code
  reads the element up to its end element, handing each child element to a field or
  skipping it: it reads the tokens that \<^verbatim>\<open>Skip\<close> reads. Its errors are those of \<^verbatim>\<open>Token\<close>
  (a field conversion that fails is a further error of the generic code, for types
  with fields that are not strings; it is not modelled).
\<close>

definition DecodeElement_struct :: "rtype \<Rightarrow> Decoder \<Rightarrow> StartElement \<Rightarrow> xmlerror option \<times> IQPayload \<times> Decoder" where
  "DecodeElement_struct T d start =
     (case Skip d of
        (Some err, d1) \<Rightarrow> (Some err, PStruct T start [], d1)
      | (None, d1) \<Rightarrow>
          (None,
           PStruct T start (map snd (take (length (input d) - length (input d1)) (input d))),
           d1))"

lemma DecodeElement_struct_length:
  "DecodeElement_struct T d start = (e, p, d') \<Longrightarrow> length (input d') \<le> length (input d)"
  by (cases "Skip d")
     (auto simp: DecodeElement_struct_def Skip_def split: option.splits dest: Skip_loop_length)

lemma Token_then_struct_length:
  assumes "(Inr t, d1) = Token d" and "(e, p, d2) = DecodeElement_struct T d1 start"
  shows "length (input d2) < length (input d)"
  using Token_Inr_length[OF assms(1)[symmetric]] DecodeElement_struct_length[OF assms(2)[symmetric]]
  by simp

function IQ_loop :: "StartElement \<Rightarrow> int \<Rightarrow> IQ \<Rightarrow> Decoder \<Rightarrow> xmlerror option \<times> IQ \<times> Decoder" where
  "IQ_loop start level iq d =
     (case Token d of
        (Inl err, d1) \<Rightarrow> (Some err, iq, d1)
      | (Inr (StartElementT tt), d1) \<Rightarrow>
          (let level = level + 1 in
           if level \<le> 1 then
             (let payloadType = Space (StartElement.Name tt) @ '' '' @ Local (StartElement.Name tt) in
              case typeRegistry payloadType of
                Some payloadType \<Rightarrow>
                  if implementsIQPayload payloadType then
                    (case DecodeElement_struct payloadType d1 tt of
                       (Some err, iqPl, d2) \<Rightarrow> (Some err, iq, d2)
                     | (None, iqPl, d2) \<Rightarrow>
                         IQ_loop start level (iq\<lparr>Payload := Payload iq @ [iqPl]\<rparr>) d2)
                  else IQ_loop start level iq d1
              | None \<Rightarrow>
                  (case DecodeElement_Node zeroNode d1 tt of
                     (Some err, elt, d2) \<Rightarrow> (Some err, iq, d2)
                   | (None, elt, d2) \<Rightarrow>
                       IQ_loop start level (iq\<lparr>Payload := Payload iq @ [PNode elt]\<rparr>) d2))
           else IQ_loop start level iq d1)
      | (Inr (EndElementT tt), d1) \<Rightarrow>
          (let level = level - 1 in
           if tt = End start then (None, iq, d1) else IQ_loop start level iq d1)
      | (Inr _, d1) \<Rightarrow> IQ_loop start level iq d1)"
  by pat_completeness auto
termination
  by (relation "measure (\<lambda>(start, level, iq, d). length (input d))")
     (auto dest: Token_Inr_length[OF sym] intro: Token_then_Node_length Token_then_struct_length)

declare IQ_loop.simps [simp del]

definition IQ_UnmarshalXML :: "IQ \<Rightarrow> Decoder \<Rightarrow> StartElement \<Rightarrow> xmlerror option \<times> IQ \<times> Decoder" where
  "IQ_UnmarshalXML iq d start =
     (let iq = iq\<lparr>IQ.XMLName := StartElement.Name start\<rparr>;
          iq = foldl (\<lambda>iq attr.
                 let iq = (if Local (Attr.Name attr) = ''id'' then iq\<lparr>Id := Value attr\<rparr> else iq);
                     iq = (if Local (Attr.Name attr) = ''type'' then iq\<lparr>PacketAttrs.Type := Value attr\<rparr> else iq);
                     iq = (if Local (Attr.Name attr) = ''to'' then iq\<lparr>To := Value attr\<rparr> else iq);
                     iq = (if Local (Attr.Name attr) = ''from'' then iq\<lparr>From := Value attr\<rparr> else iq)
                 in if Local (Attr.Name attr) = ''lang'' then iq\<lparr>Lang := Value attr\<rparr> else iq)
               iq (Attr start);
          level = 0
      in IQ_loop start level iq d)"

text \<open>
  \<^verbatim>\<open>p.DecodeElement(&packet, &se)\<close> and \<^verbatim>\<open>d.DecodeElement(&x, &start)\<close> for an \<^verbatim>\<open>*IQ\<close> and an
  \<^verbatim>\<open>*Err\<close>: both types implement \<^verbatim>\<open>xml.Unmarshaler\<close>, so the decoder calls the method through
  \<^verbatim>\<open>unmarshalInterface\<close>.
\<close>

definition DecodeElement_IQ :: "IQ \<Rightarrow> Decoder \<Rightarrow> StartElement \<Rightarrow> xmlerror option \<times> IQ \<times> Decoder" where
  "DecodeElement_IQ v d start =
     (case IQ_UnmarshalXML v (pushEOF d) start of
        (Some err, v, d1) \<Rightarrow> (Some err, v, snd (popEOF d1))
      | (None, v, d1) \<Rightarrow>
          (case popEOF d1 of
             (False, d2) \<Rightarrow> (Some UnmarshalError, v, d2)
           | (True, d2) \<Rightarrow> (None, v, d2)))"

definition DecodeElement_Err :: "Err \<Rightarrow> Decoder \<Rightarrow> StartElement \<Rightarrow> xmlerror option \<times> Err \<times> Decoder" where
  "DecodeElement_Err v d start =
     (case Err_UnmarshalXML v (pushEOF d) start of
        (Some err, v, d1) \<Rightarrow> (Some err, v, snd (popEOF d1))
      | (None, v, d1) \<Rightarrow>
          (case popEOF d1 of
             (False, d2) \<Rightarrow> (Some UnmarshalError, v, d2)
           | (True, d2) \<Rightarrow> (None, v, d2)))"

definition iqDecoder_decode :: "Decoder \<Rightarrow> StartElement \<Rightarrow> (IQ \<times> xmlerror option) \<times> Decoder" where
  "iqDecoder_decode p se =
     (let packet = zeroIQ;
          (err, packet, p) = DecodeElement_IQ packet p se
      in ((packet, err), p))"

text \<open>
  \<^verbatim>\<open>xml.Unmarshal(data, &v)\<close> makes a decoder for the data, reads tokens up to the first start
  element and decodes that element into \<^verbatim>\<open>v\<close>.
\<close>

function unmarshal_start :: "Decoder \<Rightarrow> (xmlerror + StartElement) \<times> Decoder" where
  "unmarshal_start d =
     (case Token d of
        (Inl err, d1) \<Rightarrow> (Inl err, d1)
      | (Inr (StartElementT t), d1) \<Rightarrow> (Inr t, d1)
      | (Inr _, d1) \<Rightarrow> unmarshal_start d1)"
  by pat_completeness auto
termination
  by (relation "measure (\<lambda>d. length (input d))") (auto dest: Token_Inr_length[OF sym])

declare unmarshal_start.simps [simp del]

definition Unmarshal_IQ :: "(string \<times> Token) list \<Rightarrow> IQ \<Rightarrow> xmlerror option \<times> IQ" where
  "Unmarshal_IQ data v =
     (case unmarshal_start (NewDecoder data) of
        (Inl err, d) \<Rightarrow> (Some err, v)
      | (Inr start, d) \<Rightarrow> (case DecodeElement_IQ v d start of (err, v, d) \<Rightarrow> (err, v)))"

definition Unmarshal_Err :: "(string \<times> Token) list \<Rightarrow> Err \<Rightarrow> xmlerror option \<times> Err" where
  "Unmarshal_Err data v =
     (case unmarshal_start (NewDecoder data) of
        (Inl err, d) \<Rightarrow> (Some err, v)
      | (Inr start, d) \<Rightarrow> (case DecodeElement_Err v d start of (err, v, d) \<Rightarrow> (err, v)))"

subsection \<open>\<^verbatim>\<open>xml.Encoder\<close>\<close>

text \<open>
  The encoder's state is the list of tokens written so far and the printer's stack of
  open tags, top last; a \<^verbatim>\<open>Name\<close> with an empty local name on that stack is the mark that
  \<^verbatim>\<open>marshalInterface\<close> pushes before it calls a \<^verbatim>\<open>MarshalXML\<close> method. The writer under the
  encoder is taken not to fail. iq.go encodes start elements, end elements and
  character data; the checks that \<^verbatim>\<open>EncodeToken\<close> makes on comments, processing
  instructions and directives are left out.
\<close>

record Encoder =
  out :: "Token list"
  tags :: "Name list"

definition NewEncoder :: Encoder where
  "NewEncoder = \<lparr>out = [], tags = []\<rparr>"

definition EncodeToken :: "Encoder \<Rightarrow> Token \<Rightarrow> xmlerror option \<times> Encoder" where
  "EncodeToken e t =
     (case t of
        StartElementT start \<Rightarrow>
          if Local (StartElement.Name start) = '''' then (Some MarshalError, e)
          else (None, e\<lparr>out := out e @ [t], tags := tags e @ [StartElement.Name start]\<rparr>)
      | EndElementT name \<Rightarrow>
          if Local name = '''' then (Some MarshalError, e)
          else if tags e = [] \<or> Local (last (tags e)) = '''' then (Some MarshalError, e)
          else if last (tags e) \<noteq> name then (Some MarshalError, e)
          else (None, e\<lparr>out := out e @ [t], tags := butlast (tags e)\<rparr>)
      | _ \<Rightarrow> (None, e\<lparr>out := out e @ [t]\<rparr>))"

subsection \<open>\<^verbatim>\<open>Err.MarshalXML\<close>\<close>

definition Err_MarshalXML :: "Err \<Rightarrow> Encoder \<Rightarrow> StartElement \<Rightarrow> xmlerror option \<times> Encoder" where
  "Err_MarshalXML x e start =
     (if Code x = 0 then (None, e)
      else
        let start = start\<lparr>StartElement.Name := \<lparr>Space = '''', Local = ''error''\<rparr>\<rparr>;
            code = \<lparr>Attr.Name = \<lparr>Space = '''', Local = ''code''\<rparr>, Value = Itoa (Code x)\<rparr>;
            start = start\<lparr>Attr := Attr start @ [code]\<rparr>;
            start = (if length (Err.Type x) > 0
                     then (let typ = \<lparr>Attr.Name = \<lparr>Space = '''', Local = ''type''\<rparr>, Value = Err.Type x\<rparr>
                           in start\<lparr>Attr := Attr start @ [typ]\<rparr>)
                     else start);
            (err, e) = EncodeToken e (StartElementT start);
            e = (if Reason x \<noteq> ''''
                 then (let reason = \<lparr>Space = xmppStanzas, Local = Reason x\<rparr>;
                           (_, e) = EncodeToken e (StartElementT \<lparr>StartElement.Name = reason, Attr = []\<rparr>);
                           (_, e) = EncodeToken e (EndElementT reason)
                       in e)
                 else e);
            e = (if Text x \<noteq> ''''
                 then (let text = \<lparr>Space = xmppStanzas, Local = ''text''\<rparr>;
                           (_, e) = EncodeToken e (StartElementT \<lparr>StartElement.Name = text, Attr = []\<rparr>);
                           (_, e) = EncodeToken e (CharData (Text x));
                           (_, e) = EncodeToken e (EndElementT text)
                       in e)
                 else e)
        in EncodeToken e (EndElementT (StartElement.Name start)))"

text \<open>The tokens of the error element of an \<^verbatim>\<open>Err\<close> with a code, spelled out.\<close>

definition Err_tokens :: "Err \<Rightarrow> StartElement \<Rightarrow> Token list" where
  "Err_tokens x start =
     [StartElementT \<lparr>StartElement.Name = \<lparr>Space = '''', Local = ''error''\<rparr>,
        Attr = Attr start @ \<lparr>Attr.Name = \<lparr>Space = '''', Local = ''code''\<rparr>, Value = Itoa (Code x)\<rparr> #
               (if Err.Type x = '''' then []
                else [\<lparr>Attr.Name = \<lparr>Space = '''', Local = ''type''\<rparr>, Value = Err.Type x\<rparr>])\<rparr>] @
     (if Reason x = '''' then []
      else [StartElementT \<lparr>StartElement.Name = \<lparr>Space = xmppStanzas, Local = Reason x\<rparr>, Attr = []\<rparr>,
            EndElementT \<lparr>Space = xmppStanzas, Local = Reason x\<rparr>]) @
     (if Text x = '''' then []
      else [StartElementT \<lparr>StartElement.Name = \<lparr>Space = xmppStanzas, Local = ''text''\<rparr>, Attr = []\<rparr>,
            CharData (Text x),
            EndElementT \<lparr>Space = xmppStanzas, Local = ''text''\<rparr>]) @
     [EndElementT \<lparr>Space = '''', Local = ''error''\<rparr>]"


subsection \<open>\<^verbatim>\<open>Node.MarshalXML\<close>\<close>

text \<open>
  \<^verbatim>\<open>e.EncodeElement(n.Nodes, start)\<close> refuses a start element without a name; otherwise, the
  value being a slice, it encodes the elements in turn (\<open>marshalValue_Nodes\<close>), each
  through \<^verbatim>\<open>marshalInterface\<close>: a mark is pushed on the stack of tags, the element's
  \<^verbatim>\<open>MarshalXML\<close> runs, an error of the method ends the loop with the mark left where it is,
  and a tag left open above the mark is an error. \<^verbatim>\<open>Node.MarshalXML\<close> drops the result of
  \<^verbatim>\<open>EncodeElement\<close>.
\<close>

lemma size_Nodes: "size_list size (Nodes n) < size n"
  by (cases n) simp

function Node_MarshalXML :: "Node \<Rightarrow> Encoder \<Rightarrow> StartElement \<Rightarrow> xmlerror option \<times> Encoder"
  and marshalValue_Nodes :: "Node list \<Rightarrow> Encoder \<Rightarrow> StartElement \<Rightarrow> xmlerror option \<times> Encoder"
where
  "Node_MarshalXML n e start =
     (let start = start\<lparr>Attr := Attrs n\<rparr>;
          start = start\<lparr>StartElement.Name := Node.XMLName n\<rparr>;
          (err, e) = EncodeToken e (StartElementT start);
          (_, e) = (if Local (Node.XMLName n) = '''' then (Some MarshalError, e)
                    else marshalValue_Nodes (Nodes n) e
                           \<lparr>StartElement.Name = Node.XMLName n, Attr = []\<rparr>)
      in EncodeToken e (EndElementT (StartElement.Name start)))"
| "marshalValue_Nodes [] e startTemplate = (None, e)"
| "marshalValue_Nodes (c # cs) e startTemplate =
     (let e = e\<lparr>tags := tags e @ [zeroName]\<rparr>;
          n = length (tags e)
      in case Node_MarshalXML c e startTemplate of
           (Some err, e) \<Rightarrow> (Some err, e)
         | (None, e) \<Rightarrow>
             if length (tags e) > n then (Some MarshalError, e)
             else marshalValue_Nodes cs (e\<lparr>tags := take (n - 1) (tags e)\<rparr>) startTemplate)"
  by pat_completeness auto
termination
  by (relation "measure (\<lambda>x. case x of Inl (n, e, start) \<Rightarrow> size n
                                   | Inr (ns, e, start) \<Rightarrow> size_list size ns)")
     (auto simp: size_Nodes)

declare Node_MarshalXML.simps [simp del]

subsection \<open>From the encoder's tokens to the decoder's input\<close>















subsection \<open>\<^verbatim>\<open>IQ.MakeError\<close>\<close>

text \<open>
  The receiver is a value: the body assigns to its own copy \<^verbatim>\<open>iq\<close> and returns it.
\<close>

definition MakeError :: "IQ \<Rightarrow> Err \<Rightarrow> IQ" where
  "MakeError iq xerror =
     (let from = From iq;
          to = To iq;
          iq = iq\<lparr>PacketAttrs.Type := ''error''\<rparr>;
          iq = iq\<lparr>From := to\<rparr>;
          iq = iq\<lparr>To := from\<rparr>;
          iq = iq\<lparr>Error := xerror\<rparr>
      in iq)"

subsection \<open>Documents\<close>

text \<open>
  The token sequences that the decoder reads from three documents, with the bytes of
  each token. An empty element \<^verbatim>\<open><a/>\<close> is read as a start element followed by an end
  element that takes no further bytes; an \<^verbatim>\<open>xmlns\<close> declaration stays among the attributes
  of its start element and gives the element's name its space.
\<close>

definition xmlName :: "string \<Rightarrow> string \<Rightarrow> Name" where
  "xmlName space local = \<lparr>Space = space, Local = local\<rparr>"

definition xmlAttr :: "string \<Rightarrow> string \<Rightarrow> Attr" where
  "xmlAttr local v = \<lparr>Attr.Name = xmlName '''' local, Value = v\<rparr>"

definition startTag :: "Name \<Rightarrow> Attr list \<Rightarrow> Token" where
  "startTag name attrs = StartElementT \<lparr>StartElement.Name = name, Attr = attrs\<rparr>"

definition NSDiscoInfo :: string where
  "NSDiscoInfo = ''http://jabber.org/protocol/disco#info''"

text \<open>
  \<^verbatim>\<open><iq type="error" id="2"><error code="404" type="cancel"><item-not-found
  xmlns="urn:ietf:params:xml:ns:xmpp-stanzas"/></error></iq>\<close>
\<close>

definition scenario_B :: "(string \<times> Token) list" where
  \<open>scenario_B =
    [(''<iq type="error" id="2">'',
        startTag (xmlName '''' ''iq'') [xmlAttr ''type'' ''error'', xmlAttr ''id'' ''2'']),
     (''<error code="404" type="cancel">'',
        startTag (xmlName '''' ''error'') [xmlAttr ''code'' ''404'', xmlAttr ''type'' ''cancel'']),
     (''<item-not-found xmlns="urn:ietf:params:xml:ns:xmpp-stanzas"/>'',
        startTag (xmlName xmppStanzas ''item-not-found'') [xmlAttr ''xmlns'' xmppStanzas]),
     ('''', EndElementT (xmlName xmppStanzas ''item-not-found'')),
     (''</error>'', EndElementT (xmlName '''' ''error'')),
     (''</iq>'', EndElementT (xmlName '''' ''iq''))]\<close>

text \<open>\<^verbatim>\<open><iq><a/><b/></iq>\<close>\<close>

definition two_children :: "(string \<times> Token) list" where
  \<open>two_children =
    [(''<iq>'', startTag (xmlName '''' ''iq'') []),
     (''<a/>'', startTag (xmlName '''' ''a'') []),
     ('''', EndElementT (xmlName '''' ''a'')),
     (''<b/>'', startTag (xmlName '''' ''b'') []),
     ('''', EndElementT (xmlName '''' ''b'')),
     (''</iq>'', EndElementT (xmlName '''' ''iq''))]\<close>

text \<open>
  \<^verbatim>\<open><iq type="result" id="3"><a/><query xmlns="http://jabber.org/protocol/disco#info"/></iq>\<close>
\<close>

definition second_registered :: "(string \<times> Token) list" where
  \<open>second_registered =
    [(''<iq type="result" id="3">'',
        startTag (xmlName '''' ''iq'') [xmlAttr ''type'' ''result'', xmlAttr ''id'' ''3'']),
     (''<a/>'', startTag (xmlName '''' ''a'') []),
     ('''', EndElementT (xmlName '''' ''a'')),
     (''<query xmlns="http://jabber.org/protocol/disco#info"/>'',
        startTag (xmlName NSDiscoInfo ''query'') [xmlAttr ''xmlns'' NSDiscoInfo]),
     ('''', EndElementT (xmlName NSDiscoInfo ''query'')),
     (''</iq>'', EndElementT (xmlName '''' ''iq''))]\<close>

section \<open>Properties\<close>

subsection \<open>Decoding an IQ\<close>

text \<open>
  C1. For every well-formed \<^verbatim>\<open><iq>\<close> element, \<^verbatim>\<open>IQ.UnmarshalXML\<close> should append one payload
  per first-level child, in document order. The code does not: \<^verbatim>\<open>level\<close> is incremented
  at the start element of a child, the child's end element is consumed inside
  \<^verbatim>\<open>DecodeElement\<close>, so \<^verbatim>\<open>level\<close> is never decremented for a decoded child and every later
  sibling is met at \<^verbatim>\<open>level\<close> 2 and passed over. Decoding \<^verbatim>\<open><iq><a/><b/></iq>\<close> gives the single
  payload \<^verbatim>\<open>a\<close>.
\<close>

theorem IQ_decode_two_children:
  "Unmarshal_IQ two_children zeroIQ =
     (None, zeroIQ\<lparr>IQ.XMLName := xmlName '''' ''iq'',
                    Payload := [PNode (Node (xmlName '''' ''a'') [] '''' [])]\<rparr>)"
  by code_simp

text \<open>
  C2. Decoding scenario B should give an IQ whose \<^verbatim>\<open>Error\<close> has code 404, type
  \<^verbatim>\<open>cancel\<close>, reason \<^verbatim>\<open>item-not-found\<close> and no text. \<^verbatim>\<open>IQ.UnmarshalXML\<close> has no case for the
  \<^verbatim>\<open>error\<close> child: the name is not in the registry, the child becomes a \<^verbatim>\<open>Node\<close> payload and
  \<^verbatim>\<open>Error\<close> keeps its zero value.
\<close>

theorem IQ_decode_scenario_B:
  \<open>Unmarshal_IQ scenario_B zeroIQ =
     (None, zeroIQ\<lparr>IQ.XMLName := xmlName '''' ''iq'', Id := ''2'', PacketAttrs.Type := ''error'',
                    Payload := [PNode (Node (xmlName '''' ''error'')
                                  [xmlAttr ''code'' ''404'', xmlAttr ''type'' ''cancel'']
                                  ''<item-not-found xmlns="urn:ietf:params:xml:ns:xmpp-stanzas"/>''
                                  [Node (xmlName xmppStanzas ''item-not-found'') [] '''' []])],
                    Error := zeroErr\<rparr>)\<close>
  by code_simp

text \<open>
  \<^verbatim>\<open>Err.UnmarshalXML\<close> itself, given the \<^verbatim>\<open>error\<close> element of scenario B, fills the four fields
  as the scenario says.
\<close>

lemma Err_decode_scenario_B:
  "Unmarshal_Err (tl scenario_B) zeroErr =
     (None, \<lparr>Err.XMLName = xmlName '''' ''error'', Code = 404, Type = ''cancel'',
              Reason = ''item-not-found'', Text = ''''\<rparr>)"
  by code_simp

text \<open>
  C3. A first-level child whose name is in the registry should decode to the registered
  type, any other first-level child to a \<^verbatim>\<open>Node\<close>. For a child that follows a decoded child
  the code yields neither (the counter of C1): in
  \<^verbatim>\<open><iq type="result" id="3"><a/><query xmlns="http://jabber.org/protocol/disco#info"/></iq>\<close>
  the registered \<^verbatim>\<open>query\<close> child gives no payload.
\<close>

theorem IQ_decode_second_registered:
  "Unmarshal_IQ second_registered zeroIQ =
     (None, zeroIQ\<lparr>IQ.XMLName := xmlName '''' ''iq'', Id := ''3'', PacketAttrs.Type := ''result'',
                    Payload := [PNode (Node (xmlName '''' ''a'') [] '''' [])]\<rparr>)"
  by code_simp

subsection \<open>\<^verbatim>\<open>Err.MarshalXML\<close>\<close>

lemma EncodeToken_Start:
  "Local (StartElement.Name s) \<noteq> '''' \<Longrightarrow>
   EncodeToken e (StartElementT s) = (None, e\<lparr>out := out e @ [StartElementT s], tags := tags e @ [StartElement.Name s]\<rparr>)"
  by (simp add: EncodeToken_def)

lemma EncodeToken_End:
  "Local name \<noteq> '''' \<Longrightarrow> tags e = ts @ [name] \<Longrightarrow>
   EncodeToken e (EndElementT name) = (None, e\<lparr>out := out e @ [EndElementT name], tags := ts\<rparr>)"
  by (simp add: EncodeToken_def)

lemma EncodeToken_CharData:
  "EncodeToken e (CharData s) = (None, e\<lparr>out := out e @ [CharData s]\<rparr>)"
  by (simp add: EncodeToken_def)

lemma Err_MarshalXML_nonzero:
  assumes "Code x \<noteq> 0"
  shows "Err_MarshalXML x e start = (None, e\<lparr>out := out e @ Err_tokens x start\<rparr>)"
  using assms
  by (simp add: Err_MarshalXML_def Err_tokens_def Let_def EncodeToken_Start EncodeToken_End
      EncodeToken_CharData)

text \<open>
  C4. \<^verbatim>\<open>Err.MarshalXML\<close> writes an error element if and only if \<^verbatim>\<open>Code\<close> is not zero: with
  \<^verbatim>\<open>Code\<close> zero it returns \<^verbatim>\<open>nil\<close> and leaves the encoder as it was, otherwise it returns
  \<^verbatim>\<open>nil\<close> having written the tokens of the error element, whose start element carries
  the \<^verbatim>\<open>code\<close> attribute.
\<close>

theorem Err_MarshalXML_iff_Code:
  "(Code x = 0 \<longrightarrow> Err_MarshalXML x e start = (None, e)) \<and>
   (Code x \<noteq> 0 \<longrightarrow> Err_MarshalXML x e start = (None, e\<lparr>out := out e @ Err_tokens x start\<rparr>))"
  using Err_MarshalXML_nonzero by (simp add: Err_MarshalXML_def)


lemma Itoa_503: "Itoa 503 = ''503''"
  by code_simp

theorem Err_MarshalXML_iff_Code_witness:
  "Err_MarshalXML (zeroErr\<lparr>Reason := ''gone''\<rparr>) NewEncoder \<lparr>StartElement.Name = zeroName, Attr = []\<rparr>
     = (None, NewEncoder) \<and>
   Err_MarshalXML (zeroErr\<lparr>Code := 503, Err.Type := ''cancel''\<rparr>) NewEncoder
       \<lparr>StartElement.Name = zeroName, Attr = []\<rparr>
     = (None, \<lparr>out = [StartElementT \<lparr>StartElement.Name = \<lparr>Space = '''', Local = ''error''\<rparr>,
                         Attr = [\<lparr>Attr.Name = \<lparr>Space = '''', Local = ''code''\<rparr>, Value = ''503''\<rparr>,
                                 \<lparr>Attr.Name = \<lparr>Space = '''', Local = ''type''\<rparr>, Value = ''cancel''\<rparr>]\<rparr>,
                       EndElementT \<lparr>Space = '''', Local = ''error''\<rparr>],
               tags = []\<rparr>)"
  using Err_MarshalXML_iff_Code[of "zeroErr\<lparr>Reason := ''gone''\<rparr>" NewEncoder
          "\<lparr>StartElement.Name = zeroName, Attr = []\<rparr>"]
        Err_MarshalXML_iff_Code[of "zeroErr\<lparr>Code := 503, Err.Type := ''cancel''\<rparr>" NewEncoder
          "\<lparr>StartElement.Name = zeroName, Attr = []\<rparr>"]
  by (simp add: zeroErr_def NewEncoder_def Err_tokens_def Itoa_503)

subsection \<open>\<^verbatim>\<open>IQ.MakeError\<close>\<close>

text \<open>
  C6. For every IQ and every Err, \<^verbatim>\<open>MakeError\<close> returns an IQ whose \<^verbatim>\<open>From\<close> is the input's
  \<^verbatim>\<open>To\<close>, whose \<^verbatim>\<open>To\<close> is the input's \<^verbatim>\<open>From\<close>, whose \<^verbatim>\<open>Type\<close> is \<^verbatim>\<open>"error"\<close>, whose \<^verbatim>\<open>Error\<close> is
  the supplied Err and whose \<^verbatim>\<open>Payload\<close> is the input's payload list.
\<close>

theorem MakeError_result:
  "From (MakeError iq xerror) = To iq \<and>
   To (MakeError iq xerror) = From iq \<and>
   PacketAttrs.Type (MakeError iq xerror) = ''error'' \<and>
   Error (MakeError iq xerror) = xerror \<and>
   Payload (MakeError iq xerror) = Payload iq"
  by (simp add: MakeError_def)

subsection \<open>\<^verbatim>\<open>Node\<close>\<close>

lemma foldl_Attrs_filter:
  "foldl (\<lambda>n attr. if Local (Attr.Name attr) \<noteq> ''xmlns'' then with_Attrs n (Attrs n @ [attr]) else n) n as
     = with_Attrs n (Attrs n @ filter (\<lambda>attr. Local (Attr.Name attr) \<noteq> ''xmlns'') as)"
  by (induction as arbitrary: n) (auto simp: with_Attrs_def)

lemma unmarshal_node_keeps:
  "Node_UnmarshalXML n d start = (e0, n0, d0) \<Longrightarrow>
     Node.XMLName n0 = StartElement.Name start \<and>
     Attrs n0 = Attrs n @ filter (\<lambda>attr. Local (Attr.Name attr) \<noteq> ''xmlns'') (Attr start)"
  "unmarshal_node n' idx d' = (e, n'', d'') \<Longrightarrow>
     Node.XMLName n'' = Node.XMLName n' \<and> Attrs n'' = Attrs n'"
proof (induction n d start and n' idx d' arbitrary: e0 n0 d0 and e n'' d''
    rule: Node_UnmarshalXML_unmarshal_node.induct)
  case (1 n d start)
  from "1.IH"[OF refl refl] "1.prems" show ?case
    by (simp add: Node_UnmarshalXML.simps[of n d start] Let_def foldl_Attrs_filter with_Attrs_def
        with_XMLName_def)
next
  case (2 n idx d)
  obtain r d1 where t: "Token d = (r, d1)" by (cases "Token d") auto
  show ?case
  proof (cases r)
    case (Inl err)
    with t "2.prems" show ?thesis by (simp add: unmarshal_node.simps[of n idx d])
  next
    case (Inr tok)
    show ?thesis
    proof (cases tok)
      case (StartElementT se)
      obtain e1 c d2 where r2: "Node_UnmarshalXML zeroNode (pushEOF d1) se = (e1, c, d2)"
        by (cases "Node_UnmarshalXML zeroNode (pushEOF d1) se") auto
      obtain ok d3 where p3: "popEOF d2 = (ok, d3)" by (cases "popEOF d2") auto
      show ?thesis
      proof (cases "e1 = None \<and> ok")
        case True
        then have "unmarshal_node (with_Nodes n (Nodes n @ [c])) idx d3 = (e, n'', d'')"
          using t Inr StartElementT r2 p3 "2.prems" by (simp add: unmarshal_node.simps[of n idx d])
        from "2.IH"(2)[OF t[symmetric] Inr StartElementT r2[symmetric] _ refl p3[symmetric] _ this] True
        show ?thesis by (simp add: with_Nodes_def)
      next
        case False
        then show ?thesis
          using t Inr StartElementT r2 p3 "2.prems"
          by (auto simp: unmarshal_node.simps[of n idx d] split: option.splits bool.splits)
      qed
    next
      case (EndElementT x2)
      with t Inr "2.prems" show ?thesis
        by (auto simp: unmarshal_node.simps[of n idx d] with_Content_def)
    next
      case (CharData x3)
      with t Inr "2.prems" "2.IH"(3)[OF t[symmetric] Inr CharData] show ?thesis
        by (simp add: unmarshal_node.simps[of n idx d])
    next
      case (Comment x4)
      with t Inr "2.prems" "2.IH"(4)[OF t[symmetric] Inr Comment] show ?thesis
        by (simp add: unmarshal_node.simps[of n idx d])
    next
      case (ProcInst x51 x52)
      with t Inr "2.prems" "2.IH"(5)[OF t[symmetric] Inr ProcInst] show ?thesis
        by (simp add: unmarshal_node.simps[of n idx d])
    next
      case (Directive x6)
      with t Inr "2.prems" "2.IH"(6)[OF t[symmetric] Inr Directive] show ?thesis
        by (simp add: unmarshal_node.simps[of n idx d])
    qed
  qed
qed




lemma Node_MarshalXML_leaf:
  assumes "Nodes n = []"
  shows "Node_MarshalXML n e start =
           (if Local (Node.XMLName n) = '''' then (Some MarshalError, e)
            else (None, e\<lparr>out := out e @ [StartElementT \<lparr>StartElement.Name = Node.XMLName n, Attr = Attrs n\<rparr>,
                                             EndElementT (Node.XMLName n)]\<rparr>))"
  using assms
  by (simp add: Node_MarshalXML.simps EncodeToken_def Let_def)

text \<open>
  C8. For a node with text in \<^verbatim>\<open>Content\<close> and no child nodes, \<^verbatim>\<open>Node.MarshalXML\<close> writes the
  start element and the end element only (nothing at all when the node has no name):
  no character data is written, \<^verbatim>\<open>Content\<close> is not replayed.
\<close>

theorem Node_MarshalXML_drops_text:
  assumes "Content n \<noteq> ''''" and "Nodes n = []"
  shows "out (snd (Node_MarshalXML n e start)) =
           out e @ (if Local (Node.XMLName n) = '''' then []
                    else [StartElementT \<lparr>StartElement.Name = Node.XMLName n, Attr = Attrs n\<rparr>,
                          EndElementT (Node.XMLName n)]) \<and>
         (\<forall>s. CharData s \<notin> set (drop (length (out e)) (out (snd (Node_MarshalXML n e start)))))"
  using assms(2) by (simp add: Node_MarshalXML_leaf)

theorem Node_MarshalXML_drops_text_witness:
  "Content (Node \<lparr>Space = '''', Local = ''body''\<rparr> [] ''hello'' []) \<noteq> '''' \<and>
   Nodes (Node \<lparr>Space = '''', Local = ''body''\<rparr> [] ''hello'' []) = [] \<and>
   out (snd (Node_MarshalXML (Node \<lparr>Space = '''', Local = ''body''\<rparr> [] ''hello'' []) NewEncoder
              \<lparr>StartElement.Name = zeroName, Attr = []\<rparr>)) =
     [StartElementT \<lparr>StartElement.Name = \<lparr>Space = '''', Local = ''body''\<rparr>, Attr = []\<rparr>,
      EndElementT \<lparr>Space = '''', Local = ''body''\<rparr>]"
  using Node_MarshalXML_drops_text[of "Node \<lparr>Space = '''', Local = ''body''\<rparr> [] ''hello'' []"
          NewEncoder "\<lparr>StartElement.Name = zeroName, Attr = []\<rparr>"]
  by (simp add: NewEncoder_def)

subsection \<open>The payload of a child that is decoded\<close>

text \<open>
  The loop only appends to the payload list. When it reads the start element of a child
  with \<^verbatim>\<open>level\<close> at zero, so that the child counts as first-level, and the decode
  succeeds, the payload appended for the child has the type registered for the child's
  name, or is a \<^verbatim>\<open>Node\<close> with that name when the name is not in the registry. What C3 asks
  for holds of every child that is decoded; the children after it are the ones lost.
\<close>

lemma IQ_loop_prefix:
  "IQ_loop start level iq d = (e, iq', d') \<Longrightarrow> \<exists>ps. Payload iq' = Payload iq @ ps"
proof (induction start level iq d arbitrary: e iq' d' rule: IQ_loop.induct)
  case (1 start level iq d)
  note unfold = IQ_loop.simps[of start level iq d]
  obtain r d1 where t: "Token d = (r, d1)" by (cases "Token d") auto
  show ?case
  proof (cases r)
    case (Inl err)
    with t "1.prems" show ?thesis by (simp add: unfold)
  next
    case (Inr tok)
    show ?thesis
    proof (cases tok)
      case (StartElementT tt)
      let ?key = "Space (StartElement.Name tt) @ '' '' @ Local (StartElement.Name tt)"
      show ?thesis
      proof (cases "level + 1 \<le> 1")
        case False
        then have "IQ_loop start (level + 1) iq d1 = (e, iq', d')"
          using t Inr StartElementT "1.prems" by (simp add: unfold Let_def)
        from "1.IH"(4)[OF t[symmetric] Inr StartElementT refl False this] show ?thesis .
      next
        case True
        show ?thesis
        proof (cases "typeRegistry ?key")
          case None
          obtain e1 elt d2 where r2: "DecodeElement_Node zeroNode d1 tt = (e1, elt, d2)"
            by (cases "DecodeElement_Node zeroNode d1 tt") auto
          show ?thesis
          proof (cases e1)
            case (Some err)
            with t Inr StartElementT True None r2 "1.prems" show ?thesis
              by (simp add: unfold Let_def)
          next
            case e1: None
            have "IQ_loop start (level + 1) (iq\<lparr>Payload := Payload iq @ [PNode elt]\<rparr>) d2 = (e, iq', d')"
              using t Inr StartElementT True None r2 e1 "1.prems" by (simp add: unfold Let_def)
            from "1.IH"(1)[OF t[symmetric] Inr StartElementT refl True refl None r2[symmetric] e1 refl this]
            show ?thesis by auto
          qed
        next
          case (Some T)
          show ?thesis
          proof (cases "implementsIQPayload T")
            case False
            then have "IQ_loop start (level + 1) iq d1 = (e, iq', d')"
              using t Inr StartElementT True Some "1.prems" by (simp add: unfold Let_def)
            from "1.IH"(3)[OF t[symmetric] Inr StartElementT refl True refl Some False this]
            show ?thesis .
          next
            case impl: True
            obtain e1 p d2 where r2: "DecodeElement_struct T d1 tt = (e1, p, d2)"
              by (cases "DecodeElement_struct T d1 tt") auto
            show ?thesis
            proof (cases e1)
              case (Some err)
              with t Inr StartElementT True \<open>typeRegistry ?key = Some T\<close> impl r2 "1.prems" show ?thesis
                by (simp add: unfold Let_def)
            next
              case e1: None
              have "IQ_loop start (level + 1) (iq\<lparr>Payload := Payload iq @ [p]\<rparr>) d2 = (e, iq', d')"
                using t Inr StartElementT True \<open>typeRegistry ?key = Some T\<close> impl r2 e1 "1.prems"
                by (simp add: unfold Let_def)
              from "1.IH"(2)[OF t[symmetric] Inr StartElementT refl True refl
                  \<open>typeRegistry ?key = Some T\<close> impl r2[symmetric] e1 refl this]
              show ?thesis by auto
            qed
          qed
        qed
      qed
    next
      case (EndElementT nm)
      show ?thesis
      proof (cases "nm = End start")
        case True
        with t Inr EndElementT "1.prems" show ?thesis by (simp add: unfold Let_def)
      next
        case False
        then have "IQ_loop start (level - 1) iq d1 = (e, iq', d')"
          using t Inr EndElementT "1.prems" by (simp add: unfold Let_def)
        from "1.IH"(5)[OF t[symmetric] Inr EndElementT refl False this] show ?thesis .
      qed
    next
      case (CharData x3)
      with t Inr "1.prems" "1.IH"(6)[OF t[symmetric] Inr CharData] show ?thesis
        by (simp add: unfold)
    next
      case (Comment x4)
      with t Inr "1.prems" "1.IH"(7)[OF t[symmetric] Inr Comment] show ?thesis
        by (simp add: unfold)
    next
      case (ProcInst x51 x52)
      with t Inr "1.prems" "1.IH"(8)[OF t[symmetric] Inr ProcInst] show ?thesis
        by (simp add: unfold)
    next
      case (Directive x6)
      with t Inr "1.prems" "1.IH"(9)[OF t[symmetric] Inr Directive] show ?thesis
        by (simp add: unfold)
    qed
  qed
qed

lemma DecodeElement_Node_name:
  "DecodeElement_Node zeroNode d tt = (None, elt, d') \<Longrightarrow> Node.XMLName elt = StartElement.Name tt"
  by (cases "Node_UnmarshalXML zeroNode (pushEOF d) tt")
     (auto simp: DecodeElement_Node_def split: option.splits prod.splits bool.splits
           dest: unmarshal_node_keeps(1))

lemma IQ_loop_first_level_child:
  assumes "Token d = (Inr (StartElementT tt), d1)"
      and "level \<le> 0"
      and "IQ_loop start level iq d = (None, iq', d')"
  shows "\<exists>p ps. Payload iq' = Payload iq @ p # ps \<and>
           (case typeRegistry (Space (StartElement.Name tt) @ '' '' @ Local (StartElement.Name tt)) of
              Some T \<Rightarrow> (\<exists>ts. p = PStruct T tt ts)
            | None \<Rightarrow> (\<exists>n. p = PNode n \<and> Node.XMLName n = StartElement.Name tt))"
proof (cases "typeRegistry (Space (StartElement.Name tt) @ '' '' @ Local (StartElement.Name tt))")
  case None
  obtain e1 elt d2 where r2: "DecodeElement_Node zeroNode d1 tt = (e1, elt, d2)"
    by (cases "DecodeElement_Node zeroNode d1 tt") auto
  from assms None r2 have e1: "e1 = None"
    by (auto simp: IQ_loop.simps[of start level iq d] Let_def split: option.splits)
  with assms None r2
  have "IQ_loop start (level + 1) (iq\<lparr>Payload := Payload iq @ [PNode elt]\<rparr>) d2 = (None, iq', d')"
    by (simp add: IQ_loop.simps[of start level iq d] Let_def)
  from IQ_loop_prefix[OF this] DecodeElement_Node_name[of d1 tt elt d2] r2 e1 None
  show ?thesis by auto
next
  case (Some T)
  have impl: "implementsIQPayload T"
    by (cases T) (simp_all add: implementsIQPayload_def)
  obtain e1 p d2 where r2: "DecodeElement_struct T d1 tt = (e1, p, d2)"
    by (cases "DecodeElement_struct T d1 tt") auto
  from assms Some impl r2 have e1: "e1 = None"
    by (auto simp: IQ_loop.simps[of start level iq d] Let_def split: option.splits)
  with assms Some impl r2
  have "IQ_loop start (level + 1) (iq\<lparr>Payload := Payload iq @ [p]\<rparr>) d2 = (None, iq', d')"
    by (simp add: IQ_loop.simps[of start level iq d] Let_def)
  moreover have "\<exists>ts. p = PStruct T tt ts"
    using r2 by (auto simp: DecodeElement_struct_def split: prod.splits option.splits)
  ultimately show ?thesis
    using IQ_loop_prefix[of start "level + 1" "iq\<lparr>Payload := Payload iq @ [p]\<rparr>" d2 None iq' d'] Some
    by auto
qed

subsection \<open>\<^verbatim>\<open>Err.UnmarshalXML\<close>\<close>

lemma Err_loop_Code:
  "Err_loop start x d = (e, x', d') \<Longrightarrow> Code x' = Code x"
proof (induction start x d arbitrary: e x' d' rule: Err_loop.induct)
  case (1 start x d)
  obtain r d1 where t: "Token d = (r, d1)" by (cases "Token d") auto
  show ?case
  proof (cases r)
    case (Inl err)
    with t "1.prems" show ?thesis by (simp add: Err_loop.simps[of start x d])
  next
    case (Inr tok)
    show ?thesis
    proof (cases tok)
      case (StartElementT tt)
      obtain e1 elt d2 where r2: "DecodeElement_Node zeroNode d1 tt = (e1, elt, d2)"
        by (cases "DecodeElement_Node zeroNode d1 tt") auto
      show ?thesis
      proof (cases e1)
        case (Some err)
        with t Inr StartElementT r2 "1.prems" show ?thesis
          by (simp add: Err_loop.simps[of start x d])
      next
        case None
        let ?x = "if Node.XMLName elt = \<lparr>Space = xmppStanzas, Local = ''text''\<rparr>
                  then x\<lparr>Text := Content elt\<rparr>
                  else if Space (Node.XMLName elt) = xmppStanzas
                       then x\<lparr>Reason := Local (Node.XMLName elt)\<rparr> else x"
        have "Err_loop start ?x d2 = (e, x', d')"
          using t Inr StartElementT r2 None "1.prems"
          by (simp add: Err_loop.simps[of start x d] Let_def)
        from "1.IH"(1)[OF t[symmetric] Inr StartElementT r2[symmetric] None refl refl refl this]
        show ?thesis by (simp split: if_splits)
      qed
    next
      case (EndElementT x2)
      with t Inr "1.prems" "1.IH"(2)[OF t[symmetric] Inr EndElementT] show ?thesis
        by (auto simp: Err_loop.simps[of start x d] split: if_splits)
    next
      case (CharData x3)
      with t Inr "1.prems" "1.IH"(3)[OF t[symmetric] Inr CharData] show ?thesis
        by (simp add: Err_loop.simps[of start x d])
    next
      case (Comment x4)
      with t Inr "1.prems" "1.IH"(4)[OF t[symmetric] Inr Comment] show ?thesis
        by (simp add: Err_loop.simps[of start x d])
    next
      case (ProcInst x51 x52)
      with t Inr "1.prems" "1.IH"(5)[OF t[symmetric] Inr ProcInst] show ?thesis
        by (simp add: Err_loop.simps[of start x d])
    next
      case (Directive x6)
      with t Inr "1.prems" "1.IH"(6)[OF t[symmetric] Inr Directive] show ?thesis
        by (simp add: Err_loop.simps[of start x d])
    qed
  qed
qed


lemma Err_loop_cong:
  "StartElement.Name s2 = StartElement.Name s1 \<Longrightarrow> Err_loop s1 x d = Err_loop s2 x d"
proof (induction s1 x d rule: Err_loop.induct)
  case (1 start x d)
  show ?case
    apply (subst Err_loop.simps[of start])
    apply (subst Err_loop.simps[of s2])
    using 1
    apply (auto split: prod.splits sum.splits Token.splits option.splits simp: End_def Let_def)
    done
qed

lemma Err_UnmarshalXML_alt:
  "Err_UnmarshalXML x d start =
     Err_loop start (foldl Err_attr (x\<lparr>Err.XMLName := StartElement.Name start\<rparr>) (Attr start)) d"
  unfolding Err_UnmarshalXML_def Err_attr_def Let_def ..

lemma Err_attr_malformed:
  assumes "Local (Attr.Name a) = ''code'' \<longrightarrow> (\<exists>err. Atoi (Value a) = Inl err)"
  shows "Code (Err_attr x a) = Code x"
    and "Local (Attr.Name a) = ''code'' \<Longrightarrow> Err_attr x a = x"
  using assms by (auto simp: Err_attr_def)

lemma foldl_Err_attr_Code:
  assumes "\<forall>a \<in> set as. Local (Attr.Name a) = ''code'' \<longrightarrow> (\<exists>err. Atoi (Value a) = Inl err)"
  shows "Code (foldl Err_attr x as) = Code x"
  using assms by (induction as arbitrary: x) (simp_all add: Err_attr_malformed(1))

lemma foldl_Err_attr_filter:
  assumes "\<forall>a \<in> set as. Local (Attr.Name a) = ''code'' \<longrightarrow> (\<exists>err. Atoi (Value a) = Inl err)"
  shows "foldl Err_attr x as = foldl Err_attr x (filter (\<lambda>a. Local (Attr.Name a) \<noteq> ''code'') as)"
  using assms by (induction as arbitrary: x) (simp_all add: Err_attr_malformed(2))

text \<open>
  C9. When every \<^verbatim>\<open>code\<close> attribute of the start element has a value that \<^verbatim>\<open>Atoi\<close> rejects,
  \<^verbatim>\<open>Err.UnmarshalXML\<close> leaves \<^verbatim>\<open>Code\<close> as it was (zero for a new \<^verbatim>\<open>Err\<close>), and its whole result,
  the returned error included, is the one it gives for the start element without those
  attributes: the malformed value raises nothing.
\<close>

theorem Err_UnmarshalXML_malformed_code:
  assumes "\<forall>a \<in> set (Attr start). Local (Attr.Name a) = ''code'' \<longrightarrow> (\<exists>err. Atoi (Value a) = Inl err)"
  shows "Code (fst (snd (Err_UnmarshalXML x d start))) = Code x \<and>
         Err_UnmarshalXML x d start =
           Err_UnmarshalXML x d
             (start\<lparr>Attr := filter (\<lambda>a. Local (Attr.Name a) \<noteq> ''code'') (Attr start)\<rparr>)"
proof
  let ?x0 = "x\<lparr>Err.XMLName := StartElement.Name start\<rparr>"
  obtain e x' d' where r: "Err_loop start (foldl Err_attr ?x0 (Attr start)) d = (e, x', d')"
    by (cases "Err_loop start (foldl Err_attr ?x0 (Attr start)) d") auto
  have "Code x' = Code x"
    using Err_loop_Code[OF r] foldl_Err_attr_Code[OF assms, of ?x0] by simp
  then show "Code (fst (snd (Err_UnmarshalXML x d start))) = Code x"
    using r by (simp add: Err_UnmarshalXML_alt)
  show "Err_UnmarshalXML x d start =
      Err_UnmarshalXML x d (start\<lparr>Attr := filter (\<lambda>a. Local (Attr.Name a) \<noteq> ''code'') (Attr start)\<rparr>)"
    using foldl_Err_attr_filter[OF assms, of ?x0]
      Err_loop_cong[of "start\<lparr>Attr := filter (\<lambda>a. Local (Attr.Name a) \<noteq> ''code'') (Attr start)\<rparr>" start]
    by (simp add: Err_UnmarshalXML_alt)
qed

theorem Err_UnmarshalXML_malformed_code_witness:
  "Atoi ''4o4'' = Inl ErrSyntax \<and>
   Err_UnmarshalXML zeroErr
     \<lparr>input = [(''</error>'', EndElementT (xmlName '''' ''error''))],
        stk = [stkStart (xmlName '''' ''error'')], saved = ''''\<rparr>
     \<lparr>StartElement.Name = xmlName '''' ''error'',
        Attr = [xmlAttr ''code'' ''4o4'', xmlAttr ''type'' ''cancel'']\<rparr>
   = (None, zeroErr\<lparr>Err.XMLName := xmlName '''' ''error'', Err.Type := ''cancel''\<rparr>,
      \<lparr>input = [], stk = [], saved = ''</error>''\<rparr>) \<and>
   Code (zeroErr\<lparr>Err.XMLName := xmlName '''' ''error'', Err.Type := ''cancel''\<rparr>) = 0"
proof -
  have a: "Atoi ''4o4'' = Inl ErrSyntax"
    by code_simp
  have h: "\<forall>a \<in> set (Attr \<lparr>StartElement.Name = xmlName '''' ''error'',
                Attr = [xmlAttr ''code'' ''4o4'', xmlAttr ''type'' ''cancel'']\<rparr>).
             Local (Attr.Name a) = ''code'' \<longrightarrow> (\<exists>err. Atoi (Value a) = Inl err)"
    using a by (simp add: xmlAttr_def xmlName_def)
  have r: "Err_UnmarshalXML zeroErr
     \<lparr>input = [(''</error>'', EndElementT (xmlName '''' ''error''))],
        stk = [stkStart (xmlName '''' ''error'')], saved = ''''\<rparr>
     \<lparr>StartElement.Name = xmlName '''' ''error'',
        Attr = [xmlAttr ''code'' ''4o4'', xmlAttr ''type'' ''cancel'']\<rparr>
   = (None, zeroErr\<lparr>Err.XMLName := xmlName '''' ''error'', Err.Type := ''cancel''\<rparr>,
      \<lparr>input = [], stk = [], saved = ''</error>''\<rparr>)"
    by code_simp
  from Err_UnmarshalXML_malformed_code[OF h, of zeroErr] a r show ?thesis
    by (simp add: zeroErr_def)
qed

subsection \<open>Encoding an \<^verbatim>\<open>Err\<close> and decoding it again\<close>














lemma Token_Start:
  assumes "input d = (raw, StartElementT se) # rest" and "\<forall>s. stk d \<noteq> stkEOF # s"
  shows "Token d = (Inr (StartElementT se),
           d\<lparr>input := rest, saved := saved d @ raw, stk := stkStart (StartElement.Name se) # stk d\<rparr>)"
  using assms by (auto simp: Token_def split: list.splits stack.splits)














subsection \<open>The frame of \<^verbatim>\<open>IQ.MakeError\<close>\<close>

text \<open>
  C10. \<^verbatim>\<open>MakeError\<close> has a value receiver, so the caller's IQ is not written (the model is
  a function of the value \<open>iq\<close>, which stays what it was), and the returned IQ differs
  from the input in \<^verbatim>\<open>Type\<close>, \<^verbatim>\<open>From\<close>, \<^verbatim>\<open>To\<close> and \<^verbatim>\<open>Error\<close> only: \<^verbatim>\<open>Id\<close>, \<^verbatim>\<open>Lang\<close>, \<^verbatim>\<open>RawXML\<close>,
  \<^verbatim>\<open>XMLName\<close> and \<^verbatim>\<open>Payload\<close> are those of the input.
\<close>

theorem MakeError_frame:
  "MakeError iq xerror =
     iq\<lparr>PacketAttrs.Type := ''error'', From := To iq, To := From iq, Error := xerror\<rparr> \<and>
   Id (MakeError iq xerror) = Id iq \<and>
   Lang (MakeError iq xerror) = Lang iq \<and>
   RawXML (MakeError iq xerror) = RawXML iq \<and>
   IQ.XMLName (MakeError iq xerror) = IQ.XMLName iq \<and>
   Payload (MakeError iq xerror) = Payload iq"
  by (simp add: MakeError_def)

end
